theory Spec2Isabelle
  imports Complex_Main
begin

section \<open>Data model of AnimalClassifierApp.jsx\<close>

text \<open>
  The component keeps one piece of shared state, the array \<^verbatim>\<open>images\<close>, and a flag
  \<^verbatim>\<open>analyzingAll\<close>. An entry of the array is the object literal built in
  \<^verbatim>\<open>handleFiles\<close>; the classification result is the object literal returned by
  \<^verbatim>\<open>analyzeImage\<close>. Identifiers are JavaScript numbers holding integers
  (\<^verbatim>\<open>Date.now() + index\<close>), a \<^verbatim>\<open>File\<close> is opaque and stands here as a string, and
  \<^verbatim>\<open>null\<close> is \<open>None\<close>.

  Numbers that the code prints with \<^verbatim>\<open>toFixed(d)\<close> are kept as the integer \<open>n\<close> whose
  decimal rendering with \<open>d\<close> fraction digits is the printed string (so \<^verbatim>\<open>"90.0"\<close> is
  \<open>900\<close>). The constant description strings of a result (\<^verbatim>\<open>calculations\<close>, the stage
  descriptions) carry no behaviour and are left out.
\<close>

type_synonym image_id = int
type_synonym file_ref = string

record prediction =
  predicted_breed :: string
  data_confidence :: rat
  top_5_predictions :: "(string \<times> rat) list"

record result =
  result_id :: image_id
  breed :: string
  confidence :: int
  top5 :: "(string \<times> rat) list"
  detectionStages :: "(string \<times> rat) list"
  processingTime :: int

record image =
  image_id :: image_id
  image_file :: file_ref
  preview :: "string option"
  analyzing :: bool
  result :: "result option"
  currentStage :: nat
  error :: "string option"

section \<open>The Classification Client: \<^verbatim>\<open>analyzeImage\<close>\<close>

text \<open>
  What the awaited \<^verbatim>\<open>fetch\<close> can do: reject (a transport failure with its message),
  answer with a status that is not ok and a text body, answer ok with a body that
  \<^verbatim>\<open>response.json()\<close> or the field accesses reject (with the message of that error), or
  answer ok with prediction data.
\<close>

datatype fetch_result =
    NetworkError string
  | ServerError nat string
  | MalformedResponse string
  | Predicted prediction

text \<open>
  \<^verbatim>\<open>Number.prototype.toFixed(d)\<close>: the integer \<open>n\<close> with \<open>n / 10^d\<close> nearest to the exact
  value of the number, the larger one on a tie, computed on the absolute value with the
  sign put back. A finite double is a rational number, so the rounding is exact here.
\<close>

definition toFixed :: "nat \<Rightarrow> rat \<Rightarrow> int" where
  "toFixed d x =
     (if x < 0 then - \<lfloor>(- x) * 10 ^ d + 1 / 2\<rfloor> else \<lfloor>x * 10 ^ d + 1 / 2\<rfloor>)"

text \<open>
  \<^verbatim>\<open>parseFloat\<close> of a string printed by \<^verbatim>\<open>toFixed(d)\<close>. The sums and quotients the code
  takes of such values are exact rational arithmetic here; the rounding of IEEE doubles
  is not part of the model.
\<close>

definition parseFloat :: "nat \<Rightarrow> int \<Rightarrow> rat" where
  "parseFloat d n = of_int n / 10 ^ d"

fun string_of_nat :: "nat \<Rightarrow> string" where
  "string_of_nat n =
     (if n < 10 then [char_of (48 + n)]
      else string_of_nat (n div 10) @ [char_of (48 + n mod 10)])"

text \<open>
  \<^verbatim>\<open>analyzeImage(imageFile, imageId)\<close> after its \<^verbatim>\<open>fetch\<close> has settled; \<open>elapsed\<close> is
  \<^verbatim>\<open>performance.now() - startTime\<close> in milliseconds. \<open>Inl\<close> is the message of the error
  the promise rejects with.
\<close>

definition analyzeImage :: "image_id \<Rightarrow> rat \<Rightarrow> fetch_result \<Rightarrow> string + result" where
  "analyzeImage imageId elapsed fr =
     (case fr of
        NetworkError msg \<Rightarrow> Inl msg
      | ServerError status errorText \<Rightarrow>
          Inl (if errorText = [] then ''Server error: '' @ string_of_nat status else errorText)
      | MalformedResponse msg \<Rightarrow> Inl msg
      | Predicted data \<Rightarrow>
          Inr \<lparr> result_id = imageId,
                breed = predicted_breed data,
                confidence = toFixed 1 (data_confidence data),
                top5 = top_5_predictions data,
                detectionStages =
                  [(''Image Preprocessing'', 3 / 10),
                   (''Feature Extraction'', 6 / 10),
                   (''Pattern Recognition'', 9 / 10),
                   (''Classification'', parseFloat 2 (toFixed 2 (elapsed / 1000)))],
                processingTime = toFixed 2 (elapsed / 1000) \<rparr>)"

section \<open>The component state and its asynchronous tasks\<close>

text \<open>
  A suspended \<^verbatim>\<open>handleAnalyzeImage\<close> waits for one request. Who continues when the
  request settles is either nobody (the handler was started by a button) or the
  \<^verbatim>\<open>for\<close> loop of a \<^verbatim>\<open>handleAnalyzeAll\<close>, which holds the \<^verbatim>\<open>images\<close> array of the render
  that created it and the items still to visit.
\<close>

datatype waiter = Manual | Sweep "image list" "image list"

record call =
  call_file :: file_ref
  call_imageId :: image_id
  call_waiter :: waiter

text \<open>
  \<open>images\<close> and \<open>analyzingAll\<close> are the React state. \<open>inflight\<close> are the requests sent and
  not yet settled, \<open>timers\<close> the pending 2000 ms \<^verbatim>\<open>setTimeout\<close> callbacks, \<open>readers\<close> the
  \<^verbatim>\<open>FileReader\<close>s still loading. \<open>calls\<close> is a history of every request ever sent (what a
  mock of the endpoint would record); the code does not read it.
\<close>

record app =
  images :: "image list"
  analyzingAll :: bool
  inflight :: "call list"
  timers :: "image_id list"
  readers :: "image_id list"
  calls :: "(file_ref \<times> image_id) list"

definition init :: app where
  "init = \<lparr> images = [], analyzingAll = False, inflight = [], timers = [], readers = [],
            calls = [] \<rparr>"

subsection \<open>Ingestion: \<^verbatim>\<open>handleFiles\<close>\<close>

definition new_image :: "image_id \<Rightarrow> file_ref \<Rightarrow> image" where
  "new_image imageId f =
     \<lparr> image_id = imageId, image_file = f, preview = None, analyzing = False, result = None,
       currentStage = 0, error = None \<rparr>"

text \<open>
  \<^verbatim>\<open>Date.now()\<close> is read inside the \<^verbatim>\<open>map\<close> callback, once per file: each file comes with
  the clock reading of its callback.
\<close>

definition newImages :: "(int \<times> file_ref) list \<Rightarrow> image list" where
  "newImages files =
     map (\<lambda>(index, (now, f)). new_image (now + int index) f) (enumerate 0 files)"

definition handleFiles :: "(int \<times> file_ref) list \<Rightarrow> app \<Rightarrow> app" where
  "handleFiles files st =
     st\<lparr> images := images st @ newImages files,
         readers := readers st @ map image_id (newImages files) \<rparr>"

definition reader_onload :: "image_id \<Rightarrow> string \<Rightarrow> image list \<Rightarrow> image list" where
  "reader_onload imageId url prevImages =
     map (\<lambda>img. if image_id img = imageId then img\<lparr>preview := Some url\<rparr> else img) prevImages"

subsection \<open>Per-item analyze: \<^verbatim>\<open>handleAnalyzeImage\<close>\<close>

text \<open>
  The part up to the \<^verbatim>\<open>await\<close>. \<open>snap\<close> is the \<^verbatim>\<open>images\<close> array the handler closes over
  (the state of the render that created it); the updater passed to \<^verbatim>\<open>setImages\<close> runs
  on the live state. \<open>None\<close>: the handler returned at \<^verbatim>\<open>if (!image) return\<close>.
  \<open>Some\<close>: the request is sent and the handler is suspended.
\<close>

definition mark_analyzing :: "image_id \<Rightarrow> image list \<Rightarrow> image list" where
  "mark_analyzing imageId prevImages =
     map (\<lambda>img. if image_id img = imageId
                 then img\<lparr>analyzing := True, currentStage := 0, error := None\<rparr> else img)
       prevImages"

definition handleAnalyzeImage :: "image list \<Rightarrow> image_id \<Rightarrow> waiter \<Rightarrow> app \<Rightarrow> app option" where
  "handleAnalyzeImage snap imageId w st =
     (case find (\<lambda>img. image_id img = imageId) snap of
        None \<Rightarrow> None
      | Some item \<Rightarrow>
          Some (st\<lparr> images := mark_analyzing imageId (images st),
                    inflight := inflight st @
                      [\<lparr> call_file = image_file item, call_imageId = imageId, call_waiter = w \<rparr>],
                    calls := calls st @ [(image_file item, imageId)] \<rparr>))"

text \<open>The three updaters of the part after the \<^verbatim>\<open>await\<close>.\<close>

definition write_result :: "image_id \<Rightarrow> result \<Rightarrow> image list \<Rightarrow> image list" where
  "write_result imageId r prevImages =
     map (\<lambda>img. if image_id img = imageId then img\<lparr>result := Some r\<rparr> else img) prevImages"

definition settle :: "image_id \<Rightarrow> image list \<Rightarrow> image list" where
  "settle imageId prevImages =
     map (\<lambda>img. if image_id img = imageId then img\<lparr>analyzing := False\<rparr> else img) prevImages"

definition write_error :: "image_id \<Rightarrow> string \<Rightarrow> image list \<Rightarrow> image list" where
  "write_error imageId message prevImages =
     map (\<lambda>img. if image_id img = imageId
                 then img\<lparr>analyzing := False,
                          error := Some (if message = [] then ''Analysis failed'' else message)\<rparr>
                 else img)
       prevImages"

text \<open>
  The handler resumed with what \<^verbatim>\<open>analyzeImage\<close> gave: the \<^verbatim>\<open>try\<close> branch writes the
  result and starts the timer, the \<^verbatim>\<open>catch\<close> branch writes the error at once.
\<close>

definition handleAnalyzeImage_resume :: "image_id \<Rightarrow> string + result \<Rightarrow> app \<Rightarrow> app" where
  "handleAnalyzeImage_resume imageId outcome st =
     (case outcome of
        Inr r \<Rightarrow> st\<lparr> images := write_result imageId r (images st),
                      timers := timers st @ [imageId] \<rparr>
      | Inl message \<Rightarrow> st\<lparr> images := write_error imageId message (images st) \<rparr>)"

subsection \<open>The sweep: \<^verbatim>\<open>handleAnalyzeAll\<close>\<close>

text \<open>
  The \<^verbatim>\<open>for\<close> loop from a given position. It runs until a handler suspends; a handler
  that returns at once lets the loop go on in the same turn.
\<close>

fun handleAnalyzeAll_loop :: "image list \<Rightarrow> image list \<Rightarrow> app \<Rightarrow> app" where
  "handleAnalyzeAll_loop snap [] st = st\<lparr>analyzingAll := False\<rparr>"
| "handleAnalyzeAll_loop snap (item # rest) st =
     (case handleAnalyzeImage snap (image_id item) (Sweep snap rest) st of
        None \<Rightarrow> handleAnalyzeAll_loop snap rest st
      | Some st' \<Rightarrow> st')"

definition handleAnalyzeAll :: "app \<Rightarrow> app" where
  "handleAnalyzeAll st =
     handleAnalyzeAll_loop (images st) (filter (\<lambda>img. result img = None) (images st))
       (st\<lparr>analyzingAll := True\<rparr>)"

subsection \<open>Removal, reset, statistics\<close>

definition handleRemoveImage :: "image_id \<Rightarrow> app \<Rightarrow> app" where
  "handleRemoveImage imageId st =
     st\<lparr> images := filter (\<lambda>img. image_id img \<noteq> imageId) (images st) \<rparr>"

definition handleReset :: "app \<Rightarrow> app" where
  "handleReset st = st\<lparr> images := [] \<rparr>"

text \<open>
  \<^verbatim>\<open>avgConfidence\<close> is the number \<^verbatim>\<open>0\<close> or a string printed by \<^verbatim>\<open>toFixed(1)\<close>.
\<close>

datatype avg_confidence = Number0 | Fixed1 int

record stats =
  total :: nat
  analyzed :: nat
  uniqueBreeds :: nat
  avgConfidence :: avg_confidence

definition getOverallStats :: "image list \<Rightarrow> stats" where
  "getOverallStats imgs =
     (let analyzed_imgs = filter (\<lambda>img. result img \<noteq> None) imgs;
          uniqueBreeds = card (set (map (\<lambda>img. breed (the (result img))) analyzed_imgs));
          avgConfidence =
            (if length analyzed_imgs > 0
             then Fixed1 (toFixed 1
                    (foldl (\<lambda>sum img. sum + parseFloat 1 (confidence (the (result img)))) 0
                       analyzed_imgs
                     / of_nat (length analyzed_imgs)))
             else Number0)
      in \<lparr> total = length imgs, analyzed = length analyzed_imgs,
            uniqueBreeds = uniqueBreeds, avgConfidence = avgConfidence \<rparr>)"

subsection \<open>Events\<close>

text \<open>
  Everything that happens to the component is one of these events. The buttons carry
  the conditions under which the JSX renders or enables them:
  \<^item> \<^verbatim>\<open>Analyze This Image\<close> and \<^verbatim>\<open>Retry Analysis\<close> of the card at position \<open>i\<close> are
    rendered under \<^verbatim>\<open>!image.result && !image.analyzing\<close> and call
    \<^verbatim>\<open>handleAnalyzeImage(image.id)\<close> of the current render;
  \<^item> \<^verbatim>\<open>Analyze All\<close> is rendered under \<^verbatim>\<open>images.length > 0\<close> and is
    \<^verbatim>\<open>disabled={analyzingAll || stats.analyzed === stats.total}\<close>;
  \<^item> the remove button of a card and the reset button are always there.
  The state written during a click is rendered before the next event is handled, so a
  button is judged on the state the previous events left.
  A request settles with a fetch result and the elapsed time; a timer fires; a reader
  finishes loading. The effect that advances \<^verbatim>\<open>currentStage\<close> while a result is
  shown writes that field only and is left out, as are the states \<^verbatim>\<open>dragActive\<close>,
  \<^verbatim>\<open>expandedImage\<close> and \<^verbatim>\<open>apiError\<close>.
\<close>

datatype event =
    Drop "(int \<times> file_ref) list"
  | ReaderLoaded nat string
  | ClickAnalyze nat
  | ClickAnalyzeAll
  | Settled nat rat fetch_result
  | TimerFired nat
  | ClickRemove nat
  | ClickReset

definition remove_nth :: "nat \<Rightarrow> 'a list \<Rightarrow> 'a list" where
  "remove_nth k xs = take k xs @ drop (Suc k) xs"

definition clickAnalyze :: "nat \<Rightarrow> app \<Rightarrow> app" where
  "clickAnalyze i st =
     (if i < length (images st) \<and> result (images st ! i) = None \<and> \<not> analyzing (images st ! i)
      then (case handleAnalyzeImage (images st) (image_id (images st ! i)) Manual st of
              None \<Rightarrow> st | Some st' \<Rightarrow> st')
      else st)"

definition clickAnalyzeAll :: "app \<Rightarrow> app" where
  "clickAnalyzeAll st =
     (if length (images st) > 0 \<and>
         \<not> (analyzingAll st \<or>
            analyzed (getOverallStats (images st)) = total (getOverallStats (images st)))
      then handleAnalyzeAll st
      else st)"

text \<open>
  The request at position \<open>k\<close> of \<open>inflight\<close> settles: \<^verbatim>\<open>analyzeImage\<close> finishes, the
  suspended \<^verbatim>\<open>handleAnalyzeImage\<close> resumes, and when a sweep awaits that handler its
  loop goes on.
\<close>

definition settled :: "nat \<Rightarrow> rat \<Rightarrow> fetch_result \<Rightarrow> app \<Rightarrow> app" where
  "settled k elapsed fr st =
     (if k < length (inflight st)
      then (let c = inflight st ! k;
                st1 = handleAnalyzeImage_resume (call_imageId c)
                        (analyzeImage (call_imageId c) elapsed fr)
                        (st\<lparr>inflight := remove_nth k (inflight st)\<rparr>)
            in case call_waiter c of
                 Manual \<Rightarrow> st1
               | Sweep snap rest \<Rightarrow> handleAnalyzeAll_loop snap rest st1)
      else st)"

definition timerFired :: "nat \<Rightarrow> app \<Rightarrow> app" where
  "timerFired k st =
     (if k < length (timers st)
      then st\<lparr> images := settle (timers st ! k) (images st),
               timers := remove_nth k (timers st) \<rparr>
      else st)"

definition readerLoaded :: "nat \<Rightarrow> string \<Rightarrow> app \<Rightarrow> app" where
  "readerLoaded k url st =
     (if k < length (readers st)
      then st\<lparr> images := reader_onload (readers st ! k) url (images st),
               readers := remove_nth k (readers st) \<rparr>
      else st)"

definition clickRemove :: "nat \<Rightarrow> app \<Rightarrow> app" where
  "clickRemove i st =
     (if i < length (images st) then handleRemoveImage (image_id (images st ! i)) st else st)"

fun step :: "app \<Rightarrow> event \<Rightarrow> app" where
  "step st (Drop files) = (if files = [] then st else handleFiles files st)"
| "step st (ReaderLoaded k url) = readerLoaded k url st"
| "step st (ClickAnalyze i) = clickAnalyze i st"
| "step st ClickAnalyzeAll = clickAnalyzeAll st"
| "step st (Settled k elapsed fr) = settled k elapsed fr st"
| "step st (TimerFired k) = timerFired k st"
| "step st (ClickRemove i) = clickRemove i st"
| "step st ClickReset = handleReset st"

definition run :: "event list \<Rightarrow> app" where
  "run evs = foldl step init evs"

text \<open>
  The lifecycle states of the specification, read off the three fields the code keeps:
  an item is analyzing from the moment the handler sets \<^verbatim>\<open>analyzing\<close> until a result or
  an error is written, completed once it holds a result, failed when the handler's
  \<^verbatim>\<open>catch\<close> has left an error with \<^verbatim>\<open>analyzing\<close> cleared, queued when nothing has
  happened to it.
\<close>

definition is_queued :: "image \<Rightarrow> bool" where
  "is_queued img = (\<not> analyzing img \<and> result img = None \<and> error img = None)"

definition is_analyzing :: "image \<Rightarrow> bool" where
  "is_analyzing img = (analyzing img \<and> result img = None)"


definition is_failed :: "image \<Rightarrow> bool" where
  "is_failed img = (\<not> analyzing img \<and> error img \<noteq> None)"

section \<open>The statistics of the specification\<close>




section \<open>Observing sweeps\<close>

text \<open>
  A running \<^verbatim>\<open>handleAnalyzeAll\<close> is always suspended in the \<^verbatim>\<open>await\<close> of one handler, so the
  sweeps in progress are the requests in flight that a sweep waits for.
\<close>

definition is_sweep_call :: "call \<Rightarrow> bool" where
  "is_sweep_call c = (case call_waiter c of Manual \<Rightarrow> False | Sweep snap rest \<Rightarrow> True)"

definition active_sweeps :: "app \<Rightarrow> call list" where
  "active_sweeps st = filter is_sweep_call (inflight st)"

definition sweep_inv :: "app \<Rightarrow> bool" where
  "sweep_inv st =
     (length (active_sweeps st) \<le> 1 \<and> (analyzingAll st = (active_sweeps st \<noteq> [])))"


text \<open>
  A sweep run on its own: each element of the list is the elapsed time and the fetch
  result with which the request sent last settles. The function returns every state
  passed through, the starting state first.
\<close>

fun drive :: "(rat \<times> fetch_result) list \<Rightarrow> app \<Rightarrow> app list" where
  "drive [] st = [st]"
| "drive (r # rs) st = st # drive rs (settled (length (inflight st) - 1) (fst r) (snd r) st)"

section \<open>Concrete inputs\<close>



definition gir_data :: prediction where
  "gir_data = \<lparr> predicted_breed = ''Gir'', data_confidence = 90,
                top_5_predictions = [(''Gir'', 90), (''Sahiwal'', 6)] \<rparr>"


definition two_files :: "(int \<times> file_ref) list" where
  "two_files = [(1000, ''a.jpg''), (1000, ''b.jpg'')]"


definition one_item_analyzing :: app where
  "one_item_analyzing = run [Drop [(1000, ''a.jpg'')], ClickAnalyze 0]"

definition first_outstanding :: app where
  "first_outstanding = run [Drop two_files, ClickAnalyze 0]"

definition both_written :: app where
  "both_written =
     run [Drop [(1000, ''a.jpg'')], ClickAnalyze 0, ClickAnalyzeAll,
          Settled 0 120 (Predicted gir_data), Settled 0 130 (ServerError 500 [])]"

definition removed_mid_sweep :: app where
  "removed_mid_sweep = run [Drop two_files, ClickAnalyzeAll, ClickRemove 1]"

definition sweep_running :: "event list" where
  "sweep_running = [Drop two_files, ClickAnalyzeAll]"



section \<open>Statistics\<close>









section \<open>Ingestion\<close>

lemma newImages_length [simp]: "length (newImages files) = length files"
  by (simp add: newImages_def)

lemma newImages_nth:
  "i < length files \<Longrightarrow>
   newImages files ! i = new_image (fst (files ! i) + int i) (snd (files ! i))"
  by (simp add: newImages_def nth_enumerate_eq split: prod.splits)

text \<open>
  One call of \<open>handleFiles\<close> appends one queued item per file, in the order of the files.
\<close>

lemma handleFiles_appends:
  "images (handleFiles files st) = images st @ newImages files \<and>
   length (images (handleFiles files st)) = length (images st) + length files \<and>
   map image_file (newImages files) = map snd files \<and>
   list_all is_queued (newImages files)"
  by (auto simp: handleFiles_def list_all_length newImages_nth new_image_def is_queued_def
      intro!: nth_equalityI)

text \<open>
  Within one call the identifiers differ, as long as the clock does not run backwards
  between two files of the call.
\<close>

lemma newImages_distinct:
  assumes "sorted (map fst files)"
  shows "distinct (map image_id (newImages files))"
proof -
  have "image_id (newImages files ! i) < image_id (newImages files ! j)"
    if "i < j" "j < length files" for i j
  proof -
    from that assms have "fst (files ! i) \<le> fst (files ! j)"
      by (simp add: sorted_iff_nth_mono)
    with that show ?thesis by (simp add: newImages_nth new_image_def)
  qed
  then have "image_id (newImages files ! i) \<noteq> image_id (newImages files ! j)"
    if "i < length files" "j < length files" "i \<noteq> j" for i j
    using that by (cases "i < j") (force simp: not_less le_less)+
  then show ?thesis by (simp add: distinct_conv_nth)
qed

text \<open>
  C8. Every call of the ingestion appends its items queued and in order (the two lemmas
  above), but the identifiers of two calls are not always different: a first call with
  three files at clock 1000 gives the third file the identifier 1002, and a second call
  two milliseconds later gives its first file 1002 again.
\<close>

theorem ingestion_ids_collide:
  "map image_id
     (images (run [Drop [(1000, ''a.jpg''), (1000, ''b.jpg''), (1000, ''c.jpg'')],
                   Drop [(1002, ''d.jpg'')]]))
     = [1000, 1001, 1002, 1002] \<and>
   \<not> distinct
     (map image_id
        (images (run [Drop [(1000, ''a.jpg''), (1000, ''b.jpg''), (1000, ''c.jpg'')],
                      Drop [(1002, ''d.jpg'')]])))"
  by code_simp

section \<open>Per-item analyze\<close>

lemma handleAnalyzeImage_None:
  "find (\<lambda>img. image_id img = imageId) snap = None \<Longrightarrow>
   handleAnalyzeImage snap imageId w st = None"
  by (simp add: handleAnalyzeImage_def)

lemma handleAnalyzeImage_Some:
  "find (\<lambda>img. image_id img = imageId) snap = Some item \<Longrightarrow>
   handleAnalyzeImage snap imageId w st =
     Some (st\<lparr> images := mark_analyzing imageId (images st),
               inflight := inflight st @
                 [\<lparr> call_file = image_file item, call_imageId = imageId, call_waiter = w \<rparr>],
               calls := calls st @ [(image_file item, imageId)] \<rparr>)"
  by (simp add: handleAnalyzeImage_def)


text \<open>
  A handler whose own \<^verbatim>\<open>images\<close> array does not hold the identifier returns at once:
  nothing is written and no request is sent. For a handler of the current render that
  array is the store.
\<close>

lemma handleAnalyzeImage_unknown_id:
  "imageId \<notin> image_id ` set snap \<Longrightarrow> handleAnalyzeImage snap imageId w st = None"
  by (rule handleAnalyzeImage_None) (auto simp: find_None_iff)

text \<open>
  The buttons of a card are not rendered while its item is analyzing or holds a result:
  through them no request can be started for such an item.
\<close>

lemma clickAnalyze_withheld:
  assumes "analyzing (images st ! i) \<or> result (images st ! i) \<noteq> None"
  shows "clickAnalyze i st = st"
  using assms unfolding clickAnalyze_def by auto

text \<open>
  C1. The handler has no check of \<^verbatim>\<open>analyzing\<close>. The buttons of a card are withheld
  while the item is analyzing, but a sweep selects by \<^verbatim>\<open>!img.result\<close> only: with one
  item whose request is outstanding, pressing \<^verbatim>\<open>Analyze All\<close> sends a second request for
  the same identifier while the first is still in flight.
\<close>

theorem analyze_while_analyzing_sends_second_request:
  "is_analyzing (images one_item_analyzing ! 0) \<and>
   map call_imageId (inflight one_item_analyzing) = [1000] \<and>
   map call_imageId (inflight (step one_item_analyzing ClickAnalyzeAll)) = [1000, 1000] \<and>
   map snd (calls (step one_item_analyzing ClickAnalyzeAll)) = [1000, 1000]"
  by code_simp

text \<open>
  C10. The handler looks the identifier up in the \<^verbatim>\<open>images\<close> array of the render that
  created it, not in the live store. A sweep over two items keeps the array of its
  start: when the second item is removed while the first request is outstanding, the
  sweep still finds it there once the first request settles, and sends a request for an
  identifier the store no longer holds. The store itself stays as it is.
\<close>

theorem analyze_of_removed_item_sends_request:
  "map image_id (images removed_mid_sweep) = [1000] \<and>
   map snd (calls removed_mid_sweep) = [1000] \<and>
   map snd (calls (step removed_mid_sweep (Settled 0 120 (Predicted gir_data)))) = [1000, 1001] \<and>
   map call_imageId (inflight (step removed_mid_sweep (Settled 0 120 (Predicted gir_data))))
     = [1001] \<and>
   map image_id (images (step removed_mid_sweep (Settled 0 120 (Predicted gir_data)))) = [1000]"
  by code_simp

lemma failure_has_message:
  "(\<exists>message. analyzeImage imageId elapsed fr = Inl message) = (\<forall>data. fr \<noteq> Predicted data)"
  by (cases fr) (simp_all add: analyzeImage_def)

text \<open>
  C6. When the request of a per-item analyze fails with a message, the handler resumes
  in its \<^verbatim>\<open>catch\<close> branch: every item with the identifier gets the message as its error
  (the fixed text \<^verbatim>\<open>Analysis failed\<close> when the message is empty) and is failed at once, no
  timer is started, its result is what it was before, and every other item is left as
  it was.
\<close>

theorem failed_analyze_writes_error:
  assumes "analyzeImage imageId elapsed fr = Inl message" and "i < length (images st)"
  shows "length (images (handleAnalyzeImage_resume imageId (analyzeImage imageId elapsed fr) st))
           = length (images st) \<and>
         timers (handleAnalyzeImage_resume imageId (analyzeImage imageId elapsed fr) st)
           = timers st \<and>
         (if image_id (images st ! i) = imageId
          then error (images (handleAnalyzeImage_resume imageId
                                (analyzeImage imageId elapsed fr) st) ! i)
                 = Some (if message = [] then ''Analysis failed'' else message) \<and>
               is_failed (images (handleAnalyzeImage_resume imageId
                                    (analyzeImage imageId elapsed fr) st) ! i) \<and>
               result (images (handleAnalyzeImage_resume imageId
                                 (analyzeImage imageId elapsed fr) st) ! i)
                 = result (images st ! i)
          else images (handleAnalyzeImage_resume imageId
                         (analyzeImage imageId elapsed fr) st) ! i
                 = images st ! i)"
  using assms by (simp add: handleAnalyzeImage_resume_def write_error_def is_failed_def)

text \<open>
  A server error without a body on the one item whose request is outstanding: the item
  is failed with the generic message naming the status, and still has no result.
\<close>

theorem failed_analyze_writes_error_witness:
  "analyzeImage 1000 130 (ServerError 500 []) = Inl ''Server error: 500'' \<and>
   image_id (images one_item_analyzing ! 0) = 1000 \<and>
   error (images (handleAnalyzeImage_resume 1000
                    (analyzeImage 1000 130 (ServerError 500 [])) one_item_analyzing) ! 0)
     = Some ''Server error: 500'' \<and>
   is_failed (images (handleAnalyzeImage_resume 1000
                        (analyzeImage 1000 130 (ServerError 500 [])) one_item_analyzing) ! 0) \<and>
   result (images (handleAnalyzeImage_resume 1000
                     (analyzeImage 1000 130 (ServerError 500 [])) one_item_analyzing) ! 0)
     = None"
proof -
  have a: "analyzeImage 1000 130 (ServerError 500 []) = Inl ''Server error: 500''"
    by code_simp
  have i: "0 < length (images one_item_analyzing)"
    by code_simp
  have d: "image_id (images one_item_analyzing ! 0) = 1000"
    by code_simp
  have r: "result (images one_item_analyzing ! 0) = None"
    by code_simp
  from failed_analyze_writes_error [OF a i] d r a show ?thesis by simp
qed

lemma map_other_id:
  "imageId \<notin> image_id ` set imgs \<Longrightarrow>
   map (\<lambda>img. if image_id img = imageId then f img else img) imgs = imgs"
  by (induction imgs) auto

text \<open>
  Whatever a request for an identifier brings, a store that holds no item with that
  identifier is left as it is, by the handler and later by its timer.
\<close>

lemma absent_id_untouched:
  assumes "imageId \<notin> image_id ` set (images st)"
  shows "images (handleAnalyzeImage_resume imageId outcome st) = images st"
    and "settle imageId (images st) = images st"
  using assms
  by (cases outcome; simp add: handleAnalyzeImage_resume_def write_result_def write_error_def
        settle_def map_other_id)+

lemma removed_absent: "imageId \<notin> image_id ` set (images (handleRemoveImage imageId st))"
  by (auto simp: handleRemoveImage_def)

text \<open>
  C7. After an item has been removed, the settling of a request that was outstanding for
  it, with a result or with an error, leaves the store exactly as the removal left it,
  and so does the timer that a result starts: the updaters look for the identifier and
  find no item. No entry comes back, no other item is touched, and nothing is raised.
\<close>

theorem stale_resolution_discarded:
  "images (handleAnalyzeImage_resume imageId outcome (handleRemoveImage imageId st))
     = images (handleRemoveImage imageId st) \<and>
   settle imageId (images (handleRemoveImage imageId st))
     = images (handleRemoveImage imageId st) \<and>
   imageId \<notin> image_id ` set (images (handleRemoveImage imageId st))"
  using absent_id_untouched [OF removed_absent] removed_absent by blast

text \<open>
  Two items, the request of the first outstanding: the first is removed, then its
  request brings a result. The store holds the second item only, before and after.
\<close>

theorem stale_resolution_discarded_witness:
  "map call_imageId (inflight first_outstanding) = [1000] \<and>
   map image_id (images (handleRemoveImage 1000 first_outstanding)) = [1001] \<and>
   images (handleAnalyzeImage_resume 1000 (analyzeImage 1000 120 (Predicted gir_data))
             (handleRemoveImage 1000 first_outstanding))
     = images (handleRemoveImage 1000 first_outstanding) \<and>
   images (step (step first_outstanding (ClickRemove 0)) (Settled 0 120 (Predicted gir_data)))
     = images (step first_outstanding (ClickRemove 0))"
proof -
  have a: "map call_imageId (inflight first_outstanding) = [1000]"
    by code_simp
  have b: "map image_id (images (handleRemoveImage 1000 first_outstanding)) = [1001]"
    by code_simp
  have c: "images (step (step first_outstanding (ClickRemove 0))
                     (Settled 0 120 (Predicted gir_data)))
             = images (step first_outstanding (ClickRemove 0))"
    by code_simp
  from stale_resolution_discarded
         [of 1000 "analyzeImage 1000 120 (Predicted gir_data)" first_outstanding] a b c
  show ?thesis by simp
qed

section \<open>The sweep\<close>

lemma resume_inflight [simp]:
  "inflight (handleAnalyzeImage_resume i outcome st) = inflight st"
  by (cases outcome) (simp_all add: handleAnalyzeImage_resume_def)

lemma resume_analyzingAll [simp]:
  "analyzingAll (handleAnalyzeImage_resume i outcome st) = analyzingAll st"
  by (cases outcome) (simp_all add: handleAnalyzeImage_resume_def)

lemma resume_calls [simp]:
  "calls (handleAnalyzeImage_resume i outcome st) = calls st"
  by (cases outcome) (simp_all add: handleAnalyzeImage_resume_def)







lemma drive_length [simp]: "length (drive os st) = Suc (length os)"
  by (induction os arbitrary: st) simp_all

lemma drive_first [simp]: "drive os st ! 0 = st"
  by (cases os) simp_all












section \<open>One sweep at a time\<close>

lemma loop_cases:
  "(\<exists>c. is_sweep_call c \<and>
        inflight (handleAnalyzeAll_loop snap rest st) = inflight st @ [c] \<and>
        analyzingAll (handleAnalyzeAll_loop snap rest st) = analyzingAll st) \<or>
   (inflight (handleAnalyzeAll_loop snap rest st) = inflight st \<and>
    \<not> analyzingAll (handleAnalyzeAll_loop snap rest st))"
proof (induction rest)
  case Nil
  then show ?case by simp
next
  case (Cons item rest)
  show ?case
  proof (cases "find (\<lambda>img. image_id img = image_id item) snap")
    case None
    then show ?thesis using Cons by (simp add: handleAnalyzeImage_None)
  next
    case (Some y)
    then show ?thesis by (simp add: handleAnalyzeImage_Some is_sweep_call_def)
  qed
qed

lemma filter_remove_nth_other:
  assumes k: "k < length xs" and n: "\<not> P (xs ! k)"
  shows "filter P (remove_nth k xs) = filter P xs"
proof -
  have "filter P xs = filter P (take k xs @ xs ! k # drop (Suc k) xs)"
    using id_take_nth_drop [OF k] by simp
  with n show ?thesis by (simp add: remove_nth_def)
qed

lemma filter_remove_nth_only:
  assumes k: "k < length xs" and p: "P (xs ! k)" and one: "length (filter P xs) \<le> 1"
  shows "filter P (remove_nth k xs) = []"
proof -
  have "filter P xs = filter P (take k xs @ xs ! k # drop (Suc k) xs)"
    using id_take_nth_drop [OF k] by simp
  with p have "length (filter P xs) = length (filter P (remove_nth k xs)) + 1"
    by (simp add: remove_nth_def)
  with one show ?thesis by simp
qed

lemma sweep_inv_loop:
  assumes "active_sweeps st = []" and "analyzingAll st"
  shows "sweep_inv (handleAnalyzeAll_loop snap rest st)"
  using loop_cases [of snap rest st] assms
  by (auto simp: sweep_inv_def active_sweeps_def)

lemma sweep_inv_settled:
  assumes inv: "sweep_inv st"
  shows "sweep_inv (settled k elapsed fr st)"
proof (cases "k < length (inflight st)")
  case False
  with inv show ?thesis by (simp add: settled_def)
next
  case True
  let ?c = "inflight st ! k"
  let ?st1 = "handleAnalyzeImage_resume (call_imageId ?c)
                (analyzeImage (call_imageId ?c) elapsed fr)
                (st\<lparr>inflight := remove_nth k (inflight st)\<rparr>)"
  show ?thesis
  proof (cases "call_waiter ?c")
    case Manual
    then have "\<not> is_sweep_call ?c" by (simp add: is_sweep_call_def)
    with True have "active_sweeps ?st1 = active_sweeps st"
      by (simp add: active_sweeps_def filter_remove_nth_other)
    with inv have "sweep_inv ?st1" by (simp add: sweep_inv_def)
    with True Manual show ?thesis by (simp add: settled_def Let_def)
  next
    case (Sweep snap rest)
    then have s: "is_sweep_call ?c" by (simp add: is_sweep_call_def)
    from inv have one: "length (filter is_sweep_call (inflight st)) \<le> 1"
      by (simp add: sweep_inv_def active_sweeps_def)
    from True s one have e: "active_sweeps ?st1 = []"
      by (simp add: active_sweeps_def filter_remove_nth_only)
    from True s have "active_sweeps st \<noteq> []"
      by (auto simp: active_sweeps_def filter_empty_conv)
    with inv have a: "analyzingAll ?st1" by (simp add: sweep_inv_def)
    from e a have "sweep_inv (handleAnalyzeAll_loop snap rest ?st1)" by (rule sweep_inv_loop)
    with True Sweep show ?thesis by (simp add: settled_def Let_def)
  qed
qed

lemma sweep_inv_clickAnalyze:
  assumes inv: "sweep_inv st"
  shows "sweep_inv (clickAnalyze i st)"
proof (cases "handleAnalyzeImage (images st) (image_id (images st ! i)) Manual st")
  case None
  with inv show ?thesis by (simp add: clickAnalyze_def)
next
  case (Some st')
  then have "active_sweeps st' = active_sweeps st \<and> analyzingAll st' = analyzingAll st"
    by (auto simp: handleAnalyzeImage_def active_sweeps_def is_sweep_call_def
        split: option.splits)
  with inv Some show ?thesis by (simp add: clickAnalyze_def sweep_inv_def)
qed

lemma sweep_inv_clickAnalyzeAll:
  assumes inv: "sweep_inv st"
  shows "sweep_inv (clickAnalyzeAll st)"
proof (cases "analyzingAll st")
  case True
  with inv show ?thesis by (simp add: clickAnalyzeAll_def)
next
  case False
  with inv have "active_sweeps (st\<lparr>analyzingAll := True\<rparr>) = []"
    by (simp add: sweep_inv_def active_sweeps_def)
  then have "sweep_inv (handleAnalyzeAll st)"
    unfolding handleAnalyzeAll_def by (rule sweep_inv_loop) simp
  with inv show ?thesis by (simp add: clickAnalyzeAll_def)
qed

lemma sweep_inv_step:
  assumes inv: "sweep_inv st"
  shows "sweep_inv (step st e)"
proof (cases e)
  case (Settled k elapsed fr)
  with inv show ?thesis by (simp add: sweep_inv_settled)
next
  case (ClickAnalyze i)
  with inv show ?thesis by (simp add: sweep_inv_clickAnalyze)
next
  case ClickAnalyzeAll
  with inv show ?thesis by (simp add: sweep_inv_clickAnalyzeAll)
next
  case (Drop files)
  with inv show ?thesis by (simp add: sweep_inv_def active_sweeps_def handleFiles_def)
next
  case (ReaderLoaded k url)
  with inv show ?thesis by (simp add: sweep_inv_def active_sweeps_def readerLoaded_def)
next
  case (TimerFired k)
  with inv show ?thesis by (simp add: sweep_inv_def active_sweeps_def timerFired_def)
next
  case (ClickRemove i)
  with inv show ?thesis
    by (simp add: sweep_inv_def active_sweeps_def clickRemove_def handleRemoveImage_def)
next
  case ClickReset
  with inv show ?thesis by (simp add: sweep_inv_def active_sweeps_def handleReset_def)
qed

lemma sweep_inv_run: "sweep_inv (run evs)"
proof (induction evs rule: rev_induct)
  case Nil
  show ?case by (simp add: run_def init_def sweep_inv_def active_sweeps_def)
next
  case (snoc e evs)
  then show ?case by (simp add: run_def sweep_inv_step)
qed

text \<open>
  C4. \<open>handleAnalyzeAll\<close> is called from one place, the \<^verbatim>\<open>Analyze All\<close> button, which is
  disabled while \<open>analyzingAll\<close> is set. After any sequence of events at most one sweep
  is in progress, and while one is in progress pressing the button changes nothing: no
  second sweep starts.
\<close>

theorem one_sweep_at_a_time:
  "length (active_sweeps (run evs)) \<le> 1 \<and>
   (active_sweeps (run evs) \<noteq> [] \<longrightarrow> step (run evs) ClickAnalyzeAll = run evs)"
  using sweep_inv_run [of evs] by (simp add: sweep_inv_def clickAnalyzeAll_def)

text \<open>
  Two files dropped and \<^verbatim>\<open>Analyze All\<close> pressed: the sweep waits for the request of the
  first item, and a second press leaves the state as it is.
\<close>

theorem one_sweep_at_a_time_witness:
  "map call_imageId (active_sweeps (run sweep_running)) = [1000] \<and>
   step (run sweep_running) ClickAnalyzeAll = run sweep_running"
proof -
  have a: "map call_imageId (active_sweeps (run sweep_running)) = [1000]"
    by code_simp
  then have "active_sweeps (run sweep_running) \<noteq> []"
    by auto
  with one_sweep_at_a_time [of sweep_running] a show ?thesis by simp
qed

section \<open>Result and error of an item\<close>

text \<open>
  C5. Result and error are not kept apart in every reachable state. With one item, the
  button starts a first request and \<^verbatim>\<open>Analyze All\<close> a second one for the same item (C1);
  the first brings a result, the second a server error. The \<^verbatim>\<open>catch\<close> branch writes the
  error and leaves the result in place: the item holds both.
\<close>

theorem result_and_error_both_present:
  "length (images both_written) = 1 \<and>
   result (images both_written ! 0) \<noteq> None \<and>
   error (images both_written ! 0) = Some ''Server error: 500'' \<and>
   \<not> analyzing (images both_written ! 0)"
  by code_simp

end
